theory Spec2Isabelle
  imports Main "HOL-Library.Word" "HOL-Library.Multiset"
begin

section \<open>Data model of the todo application (src/src/App.tsx)\<close>

text \<open>
  A JavaScript string is a sequence of UTF-16 code units. Titles and the text of
  the input fields are modelled as such; the fixed error messages of the
  application are ASCII literals and are kept as HOL strings.
\<close>

type_synonym jsstring = "16 word list"

text \<open>
  \<^verbatim>\<open>String.prototype.trim\<close> removes the code units of WhiteSpace and LineTerminator
  (ECMAScript) from both ends.
\<close>

definition isWhiteSpace :: "16 word \<Rightarrow> bool" where
  "isWhiteSpace c =
     (c = 0x0009 \<or> c = 0x000A \<or> c = 0x000B \<or> c = 0x000C \<or> c = 0x000D \<or> c = 0x0020
      \<or> c = 0x00A0 \<or> c = 0x1680 \<or> (0x2000 \<le> c \<and> c \<le> 0x200A)
      \<or> c = 0x2028 \<or> c = 0x2029 \<or> c = 0x202F \<or> c = 0x205F \<or> c = 0x3000 \<or> c = 0xFEFF)"

definition trim :: "jsstring \<Rightarrow> jsstring" where
  "trim s = rev (dropWhile isWhiteSpace (rev (dropWhile isWhiteSpace s)))"

text \<open>The type \<^verbatim>\<open>Todo\<close> (types/Todo): the field \<^verbatim>\<open>id\<close> is written \<open>id'\<close>.\<close>

record todo =
  id' :: int
  userId :: int
  title :: jsstring
  completed :: bool

datatype Filter = FilterAll | FilterActive | FilterCompleted

datatype ToggleStatus = ToggleCompleted | ToggleActive

text \<open>
  \<^verbatim>\<open>Partial<Todo>\<close> as it is built in the handlers: each of the two fields that the
  application ever sends may be present or absent.
\<close>

record updateData =
  newCompleted :: "bool option"
  newTitle :: "jsstring option"

definition emptyUpdate :: updateData where
  "emptyUpdate = \<lparr>newCompleted = None, newTitle = None\<rparr>"

text \<open>The object spread \<^verbatim>\<open>{ ...todo, ...updateData }\<close>.\<close>

definition spread :: "todo \<Rightarrow> updateData \<Rightarrow> todo" where
  "spread t u =
     t\<lparr>completed := (case newCompleted u of None \<Rightarrow> completed t | Some c \<Rightarrow> c),
       title := (case newTitle u of None \<Rightarrow> title t | Some s \<Rightarrow> s)\<rparr>"

text \<open>The calls to the remote store (the module api/todos), as a trace.\<close>

datatype call =
    GetTodos
  | PostTodo jsstring
  | DeleteTodo int
  | PatchTodo int updateData

text \<open>
  A promise either fulfils with a value or rejects with a thrown value; of the
  thrown value the program only ever asks whether it is an instance of
  \<^verbatim>\<open>Error\<close>.
\<close>

datatype thrown = ErrorInstance | OtherValue

fun instanceofError :: "thrown \<Rightarrow> bool" where
  "instanceofError ErrorInstance = True"
| "instanceofError OtherValue = False"

datatype 'a outcome = Fulfilled 'a | Rejected thrown

text \<open>
  The state of the component \<^verbatim>\<open>App\<close>: one field for each \<^verbatim>\<open>useState\<close>, and the
  trace \<open>sent\<close> of the remote calls issued so far (oldest first).
\<close>

record app_state =
  todosFromServer :: "todo list"
  filterStatus :: Filter
  inputValue :: jsstring
  tempTodo :: "jsstring option"
  lockInput :: bool
  deleteAll :: bool
  changeAll :: "ToggleStatus option"
  errorMessage :: "string option"
  sent :: "call list"

definition allCompleted :: "app_state \<Rightarrow> bool" where
  "allCompleted st =
     (length (filter completed (todosFromServer st)) = length (todosFromServer st))"

section \<open>Operations on a single todo\<close>

text \<open>
  Every handler takes the functions of the remote store it calls as a parameter:
  the answer of the store to a call. It returns the state after the handler has
  run to its end, and the value its promise rejects with, if any.
\<close>

definition loadTodos :: "todo list outcome \<Rightarrow> app_state \<Rightarrow> app_state \<times> thrown option" where
  "loadTodos getTodos st =
     (let st1 = st\<lparr>sent := sent st @ [GetTodos]\<rparr>
      in case getTodos of
           Fulfilled todos \<Rightarrow> (st1\<lparr>todosFromServer := todos\<rparr>, None)
         | Rejected e \<Rightarrow> (st1\<lparr>errorMessage := Some ''Unable to load todos''\<rparr>, None))"

definition handleDeleteTodo ::
  "(int \<Rightarrow> unit outcome) \<Rightarrow> app_state \<Rightarrow> int \<Rightarrow> app_state \<times> thrown option" where
  "handleDeleteTodo deleteTodo st i =
     (let st1 = st\<lparr>errorMessage := None, lockInput := True\<rparr>;
          st2 = st1\<lparr>sent := sent st1 @ [DeleteTodo i]\<rparr>;
          st3 = (case deleteTodo i of
                   Fulfilled u \<Rightarrow>
                     st2\<lparr>todosFromServer :=
                           filter (\<lambda>todoItem. id' todoItem \<noteq> i) (todosFromServer st)\<rparr>
                 | Rejected e \<Rightarrow> st2\<lparr>errorMessage := Some ''Unable to delete a todo''\<rparr>)
      in (st3\<lparr>lockInput := False\<rparr>, None))"

definition handlePostTodo ::
  "(jsstring \<Rightarrow> todo outcome) \<Rightarrow> app_state \<Rightarrow> app_state \<times> thrown option" where
  "handlePostTodo postTodo st =
     (let preparedInputValue = trim (inputValue st);
          st1 = st\<lparr>errorMessage := None\<rparr>
      in if length preparedInputValue = 0
         then (st1\<lparr>errorMessage := Some ''Title should not be empty''\<rparr>, None)
         else
           let st2 = st1\<lparr>lockInput := True, tempTodo := Some preparedInputValue\<rparr>;
               st3 = st2\<lparr>sent := sent st2 @ [PostTodo preparedInputValue]\<rparr>;
               st4 = (case postTodo preparedInputValue of
                        Fulfilled newPost \<Rightarrow>
                          st3\<lparr>todosFromServer := todosFromServer st3 @ [newPost],
                              inputValue := []\<rparr>
                      | Rejected e \<Rightarrow> st3\<lparr>errorMessage := Some ''Unable to add a todo''\<rparr>)
           in (st4\<lparr>lockInput := False, tempTodo := None\<rparr>, None))"

text \<open>The argument \<^verbatim>\<open>data: boolean | string\<close> of \<^verbatim>\<open>handleChangeTodo\<close>.\<close>

datatype change = BoolData bool | StringData jsstring

definition makeUpdate :: "change \<Rightarrow> updateData" where
  "makeUpdate d =
     (case d of
        BoolData b \<Rightarrow> emptyUpdate\<lparr>newCompleted := Some b\<rparr>
      | StringData s \<Rightarrow> emptyUpdate\<lparr>newTitle := Some (trim s)\<rparr>)"

definition handleChangeTodo ::
  "(int \<Rightarrow> updateData \<Rightarrow> unit outcome) \<Rightarrow> app_state \<Rightarrow> int \<Rightarrow> change
     \<Rightarrow> app_state \<times> thrown option" where
  "handleChangeTodo patchTodo st i d =
     (let upd = makeUpdate d;
          st1 = st\<lparr>sent := sent st @ [PatchTodo i upd]\<rparr>
      in case patchTodo i upd of
           Fulfilled u \<Rightarrow>
             (st1\<lparr>todosFromServer :=
                    map (\<lambda>t. if id' t = i then spread t upd else t) (todosFromServer st1)\<rparr>,
              None)
         | Rejected e \<Rightarrow>
             (if instanceofError e
              then (st1\<lparr>errorMessage := Some ''Unable to update a todo''\<rparr>, Some e)
              else (st1, None)))"

section \<open>The component TodoItem\<close>

text \<open>
  The local state of one rendered item. Its field \<^verbatim>\<open>inputValue\<close> is written
  \<open>inputValue'\<close>, the name being taken by the state of \<^verbatim>\<open>App\<close>.
\<close>

record item_state =
  isLoading :: bool
  isEditing :: bool
  inputValue' :: jsstring

text \<open>
  \<^verbatim>\<open>deleteItem\<close> awaits the property \<^verbatim>\<open>deleteTodo\<close> (which is \<^verbatim>\<open>handleDeleteTodo\<close>)
  inside \<^verbatim>\<open>try ... finally\<close>: a rejection passes through.
\<close>

definition deleteItem ::
  "(int \<Rightarrow> unit outcome) \<Rightarrow> todo \<Rightarrow> item_state \<times> app_state
     \<Rightarrow> (item_state \<times> app_state) \<times> thrown option" where
  "deleteItem deleteTodo t s =
     (case s of (it, st) \<Rightarrow>
        let it1 = it\<lparr>isLoading := True\<rparr>;
            (st', r) = handleDeleteTodo deleteTodo st (id' t)
        in ((it1\<lparr>isLoading := False\<rparr>, st'), r))"

text \<open>
  \<^verbatim>\<open>handleTitleChange\<close>: \<^verbatim>\<open>!inputValue\<close> holds of the empty string only. The call
  of \<^verbatim>\<open>deleteItem\<close> is not awaited, so its rejection does not reach the caller.
\<close>

definition handleTitleChange ::
  "(int \<Rightarrow> unit outcome) \<Rightarrow> (int \<Rightarrow> updateData \<Rightarrow> unit outcome) \<Rightarrow> todo
     \<Rightarrow> item_state \<times> app_state \<Rightarrow> (item_state \<times> app_state) \<times> thrown option" where
  "handleTitleChange deleteTodo patchTodo t s =
     (case s of (it, st) \<Rightarrow>
        if inputValue' it = [] then (fst (deleteItem deleteTodo t s), None)
        else
          let it1 = (if inputValue' it = title t then it\<lparr>isEditing := False\<rparr> else it)
          in if inputValue' it \<noteq> title t
             then
               let it2 = it1\<lparr>isLoading := True\<rparr>;
                   (st', r) = handleChangeTodo patchTodo st (id' t) (StringData (inputValue' it))
               in (case r of
                     None \<Rightarrow> ((it2\<lparr>isEditing := False, isLoading := False\<rparr>, st'), None)
                   | Some e \<Rightarrow> ((it2\<lparr>isLoading := False\<rparr>, st'), Some e))
             else ((it1, st), None))"

section \<open>Bulk operations\<close>

text \<open>
  Both bulk handlers map an asynchronous callback over the list and await
  \<^verbatim>\<open>Promise.allSettled\<close>. Each callback runs at once up to its first \<^verbatim>\<open>await\<close>, where
  it is suspended as a task; the suspended tasks are resumed one at a time, in an
  order the program does not control.

  \<open>spawnAll\<close> is the call of \<^verbatim>\<open>Array.prototype.map\<close>: it starts the callbacks in list
  order, threading the shared state, and collects the tasks they leave suspended.
\<close>

fun spawnAll ::
  "('a \<Rightarrow> 'r \<Rightarrow> 'r \<times> 't list) \<Rightarrow> 'a list \<Rightarrow> 'r \<Rightarrow> 't list \<Rightarrow> 'r \<times> 't list" where
  "spawnAll start [] r pend = (r, pend)"
| "spawnAll start (x # xs) r pend =
     (case start x r of (r', new) \<Rightarrow> spawnAll start xs r' (pend @ new))"

text \<open>
  \<open>allSettled\<close> resumes suspended tasks until none is left. The order is given by
  the list \<open>picks\<close>: pick \<open>p\<close> resumes the task at position \<open>p mod n\<close> of the
  \<open>n\<close> tasks then suspended, so every order of settlement is the run of some
  list of picks. A resumed task may suspend again. The result is \<open>None\<close> when the
  picks are used up while a task is still suspended.
\<close>

fun allSettled ::
  "('t \<Rightarrow> 'r \<Rightarrow> 'r \<times> 't list) \<Rightarrow> nat list \<Rightarrow> 't list \<Rightarrow> 'r \<Rightarrow> 'r option" where
  "allSettled resume picks [] r = Some r"
| "allSettled resume [] (t # ts) r = None"
| "allSettled resume (p # ps) (t # ts) r =
     (let pend = t # ts; k = p mod length pend
      in case resume (pend ! k) r of
           (r', new) \<Rightarrow> allSettled resume ps (take k pend @ drop (Suc k) pend @ new) r')"

subsection \<open>handleDeleteAll\<close>

text \<open>
  The shared state of a bulk run is the state of \<^verbatim>\<open>App\<close> together with the local
  variable \<^verbatim>\<open>updatedTodos\<close>. A task of \<^verbatim>\<open>handleDeleteAll\<close> is the id whose
  \<^verbatim>\<open>deleteTodo\<close> is awaited.
\<close>

type_synonym bulk_run = "app_state \<times> todo list"

fun deleteAll_start :: "todo \<Rightarrow> bulk_run \<Rightarrow> bulk_run \<times> int list" where
  "deleteAll_start t (st, updatedTodos) =
     (if completed t
      then ((st\<lparr>sent := sent st @ [DeleteTodo (id' t)]\<rparr>, updatedTodos), [id' t])
      else ((st, updatedTodos), []))"

fun deleteAll_resume :: "(int \<Rightarrow> unit outcome) \<Rightarrow> int \<Rightarrow> bulk_run \<Rightarrow> bulk_run \<times> int list" where
  "deleteAll_resume deleteTodo i (st, updatedTodos) =
     (case deleteTodo i of
        Fulfilled u \<Rightarrow> ((st, filter (\<lambda>item. id' item \<noteq> i) updatedTodos), [])
      | Rejected e \<Rightarrow> ((st\<lparr>errorMessage := Some ''Unable to delete a todo''\<rparr>, updatedTodos), []))"

definition handleDeleteAll ::
  "(int \<Rightarrow> unit outcome) \<Rightarrow> nat list \<Rightarrow> app_state \<Rightarrow> (app_state \<times> thrown option) option" where
  "handleDeleteAll deleteTodo picks st =
     (let st1 = st\<lparr>deleteAll := True, errorMessage := None\<rparr>
      in case spawnAll deleteAll_start (todosFromServer st) (st1, todosFromServer st) [] of
           (r, pend) \<Rightarrow>
             (case allSettled (deleteAll_resume deleteTodo) picks pend r of
                None \<Rightarrow> None
              | Some (st2, updatedTodos) \<Rightarrow>
                  Some (st2\<lparr>todosFromServer := updatedTodos, deleteAll := False\<rparr>, None)))"

subsection \<open>handleToggleAll\<close>

text \<open>
  A callback of \<^verbatim>\<open>handleToggleAll\<close> has two \<^verbatim>\<open>await\<close>s. A task is the pair
  \<^verbatim>\<open>{ id, completed }\<close> the callback was called with, and the \<^verbatim>\<open>await\<close> it is
  suspended at.
\<close>

datatype await_point = FirstAwait | SecondAwait

type_synonym toggle_task = "int \<times> bool \<times> await_point"

definition completedUpdate :: "bool \<Rightarrow> updateData" where
  "completedUpdate b = emptyUpdate\<lparr>newCompleted := Some b\<rparr>"

text \<open>
  The function mapped over \<^verbatim>\<open>updatedTodos\<close> at the end of the \<^verbatim>\<open>try\<close> block;
  \<open>itemCompleted\<close> is the \<^verbatim>\<open>completed\<close> of the callback's own item.
\<close>

definition toggle_map :: "bool \<Rightarrow> bool \<Rightarrow> todo \<Rightarrow> todo" where
  "toggle_map allCompl itemCompleted t =
     (if allCompl then t\<lparr>completed := False\<rparr>
      else if \<not> allCompl \<and> \<not> itemCompleted then t\<lparr>completed := True\<rparr>
      else t)"

fun toggle_tail :: "bool \<Rightarrow> bool \<Rightarrow> bulk_run \<Rightarrow> bulk_run \<times> toggle_task list" where
  "toggle_tail allCompl itemCompleted (st, updatedTodos) =
     ((st, map (toggle_map allCompl itemCompleted) updatedTodos), [])"

text \<open>The callback from its second \<^verbatim>\<open>if\<close> on.\<close>

fun toggle_second :: "bool \<Rightarrow> int \<Rightarrow> bool \<Rightarrow> bulk_run \<Rightarrow> bulk_run \<times> toggle_task list" where
  "toggle_second allCompl i itemCompleted (st, updatedTodos) =
     (if \<not> itemCompleted
      then ((st\<lparr>changeAll := Some ToggleActive,
                sent := sent st @ [PatchTodo i (completedUpdate True)]\<rparr>, updatedTodos),
            [(i, itemCompleted, SecondAwait)])
      else toggle_tail allCompl itemCompleted (st, updatedTodos))"

text \<open>The callback from its start.\<close>

fun toggle_start :: "bool \<Rightarrow> todo \<Rightarrow> bulk_run \<Rightarrow> bulk_run \<times> toggle_task list" where
  "toggle_start allCompl t (st, updatedTodos) =
     (if allCompl
      then ((st\<lparr>changeAll := Some ToggleCompleted,
                sent := sent st @ [PatchTodo (id' t) (completedUpdate False)]\<rparr>, updatedTodos),
            [(id' t, completed t, FirstAwait)])
      else toggle_second allCompl (id' t) (completed t) (st, updatedTodos))"

text \<open>A task resumed with the answer of the store; a rejection enters \<^verbatim>\<open>catch\<close>.\<close>

fun toggle_catch :: "bulk_run \<Rightarrow> bulk_run \<times> toggle_task list" where
  "toggle_catch (st, updatedTodos) =
     ((st\<lparr>errorMessage := Some ''Unable to delete a todo''\<rparr>, updatedTodos), [])"

fun toggle_resume ::
  "bool \<Rightarrow> (int \<Rightarrow> updateData \<Rightarrow> unit outcome) \<Rightarrow> toggle_task \<Rightarrow> bulk_run
     \<Rightarrow> bulk_run \<times> toggle_task list" where
  "toggle_resume allCompl patchTodo (i, itemCompleted, FirstAwait) r =
     (case patchTodo i (completedUpdate False) of
        Fulfilled u \<Rightarrow> toggle_second allCompl i itemCompleted r
      | Rejected e \<Rightarrow> toggle_catch r)"
| "toggle_resume allCompl patchTodo (i, itemCompleted, SecondAwait) r =
     (case patchTodo i (completedUpdate True) of
        Fulfilled u \<Rightarrow> toggle_tail allCompl itemCompleted r
      | Rejected e \<Rightarrow> toggle_catch r)"

definition handleToggleAll ::
  "(int \<Rightarrow> updateData \<Rightarrow> unit outcome) \<Rightarrow> nat list \<Rightarrow> app_state
     \<Rightarrow> (app_state \<times> thrown option) option" where
  "handleToggleAll patchTodo picks st =
     (case spawnAll (toggle_start (allCompleted st)) (todosFromServer st)
             (st, todosFromServer st) [] of
        (r, pend) \<Rightarrow>
          (case allSettled (toggle_resume (allCompleted st) patchTodo) picks pend r of
             None \<Rightarrow> None
           | Some (st2, updatedTodos) \<Rightarrow>
               Some (st2\<lparr>todosFromServer := updatedTodos, changeAll := None\<rparr>, None)))"

section \<open>Auxiliary definitions for the statements\<close>

fun fulfilled :: "'a outcome \<Rightarrow> bool" where
  "fulfilled (Fulfilled v) = True"
| "fulfilled (Rejected e) = False"

text \<open>The state of \<^verbatim>\<open>App\<close> after mounting: the initial values of its \<^verbatim>\<open>useState\<close>s.\<close>

definition initialState :: app_state where
  "initialState =
     \<lparr>todosFromServer = [], filterStatus = FilterAll, inputValue = [], tempTodo = None,
      lockInput = False, deleteAll = False, changeAll = None, errorMessage = None,
      sent = []\<rparr>"

text \<open>Four todos for the concrete runs: the first two active, the last two completed.\<close>

definition todoA :: todo where
  "todoA = \<lparr>id' = 1, userId = 7, title = [0x61], completed = False\<rparr>"

definition todoB :: todo where
  "todoB = \<lparr>id' = 2, userId = 7, title = [0x62], completed = False\<rparr>"

definition todoC :: todo where
  "todoC = \<lparr>id' = 3, userId = 7, title = [0x63], completed = True\<rparr>"

definition todoD :: todo where
  "todoD = \<lparr>id' = 4, userId = 7, title = [0x64], completed = True\<rparr>"

text \<open>A store that rejects, with an \<^verbatim>\<open>Error\<close>, exactly the calls for the id \<open>bad\<close>.\<close>

definition failingFor :: "int \<Rightarrow> int \<Rightarrow> unit outcome" where
  "failingFor bad i = (if i = bad then Rejected ErrorInstance else Fulfilled ())"

text \<open>
  The \<^verbatim>\<open>await\<close> at which the callbacks of \<^verbatim>\<open>handleToggleAll\<close> are suspended, and
  the items for which the specification says that a call is issued: every item
  when all are completed, the not-completed items otherwise.
\<close>

definition awaitOf :: "bool \<Rightarrow> await_point" where
  "awaitOf allCompl = (if allCompl then FirstAwait else SecondAwait)"

definition issuedFor :: "app_state \<Rightarrow> todo list" where
  "issuedFor st =
     (if allCompleted st then todosFromServer st
      else filter (\<lambda>t. \<not> completed t) (todosFromServer st))"


text \<open>Stores for the concrete runs of the update call.\<close>

definition patchOk :: "int \<Rightarrow> updateData \<Rightarrow> unit outcome" where
  "patchOk i u = Fulfilled ()"

definition patchFailingFor :: "int \<Rightarrow> int \<Rightarrow> updateData \<Rightarrow> unit outcome" where
  "patchFailingFor bad i u = (if i = bad then Rejected ErrorInstance else Fulfilled ())"

definition patchRejecting :: "thrown \<Rightarrow> int \<Rightarrow> updateData \<Rightarrow> unit outcome" where
  "patchRejecting e i u = Rejected e"


text \<open>A store that gives the same answer to every create call.\<close>

definition postAnswering :: "todo outcome \<Rightarrow> jsstring \<Rightarrow> todo outcome" where
  "postAnswering r s = r"


section \<open>The scheduler\<close>

lemma mset_without_nth:
  "k < length xs \<Longrightarrow> add_mset (xs ! k) (mset (take k xs @ drop (Suc k) xs)) = mset xs"
proof -
  assume k: "k < length xs"
  then have "xs = take k xs @ xs ! k # drop (Suc k) xs"
    by (rule id_take_nth_drop)
  then have "mset xs = mset (take k xs @ xs ! k # drop (Suc k) xs)"
    by simp
  then show ?thesis by simp
qed

lemma allSettled_no_respawn:
  assumes "\<forall>t\<in>set pend. \<forall>r. snd (resume t r) = []"
  shows "\<exists>perm. mset perm = mset pend \<and>
           allSettled resume picks pend r =
             (if length pend \<le> length picks
              then Some (fold (\<lambda>t r. fst (resume t r)) perm r) else None)"
  using assms
proof (induction picks arbitrary: pend r)
  case Nil
  show ?case
  proof (cases pend)
    case Nil
    then show ?thesis by simp
  next
    case (Cons t ts)
    then have "allSettled resume [] pend r = None" by simp
    with Cons show ?thesis by (intro exI [of _ pend]) simp
  qed
next
  case (Cons p ps)
  show ?case
  proof (cases pend)
    case Nil
    then show ?thesis by simp
  next
    case (Cons t ts)
    define k where "k = p mod length pend"
    define rest where "rest = take k pend @ drop (Suc k) pend"
    have k: "k < length pend" using Cons by (simp add: k_def)
    then have mem: "pend ! k \<in> set pend" by simp
    obtain r' new where step: "resume (pend ! k) r = (r', new)" by (cases "resume (pend ! k) r")
    from mem Cons.prems have "snd (resume (pend ! k) r) = []" by blast
    with step have new: "new = []" by simp
    have sub: "set rest \<subseteq> set pend"
      unfolding rest_def using set_take_subset set_drop_subset by fastforce
    with Cons.prems have "\<forall>t\<in>set rest. \<forall>r. snd (resume t r) = []" by blast
    from Cons.IH [OF this, of r'] obtain perm where
      perm: "mset perm = mset rest"
      and run: "allSettled resume ps rest r' =
         (if length rest \<le> length ps
          then Some (fold (\<lambda>t r. fst (resume t r)) perm r') else None)"
      by blast
    have len: "length pend = Suc (length rest)"
      using k by (simp add: rest_def min_def)
    have unfold: "allSettled resume (p # ps) pend r = allSettled resume ps rest r'"
      using Cons step new by (simp add: k_def rest_def Let_def)
    have "mset (pend ! k # perm) = mset pend"
      using perm mset_without_nth [OF k] by (simp add: rest_def)
    moreover have "allSettled resume (p # ps) pend r =
       (if length pend \<le> length (p # ps)
        then Some (fold (\<lambda>t r. fst (resume t r)) (pend ! k # perm) r) else None)"
      using unfold run len step by simp
    ultimately show ?thesis by blast
  qed
qed

section \<open>Bulk delete\<close>

lemma deleteAll_spawn:
  "spawnAll deleteAll_start ts (st, u) pend =
     ((st\<lparr>sent := sent st @ map (\<lambda>t. DeleteTodo (id' t)) (filter completed ts)\<rparr>, u),
      pend @ map id' (filter completed ts))"
  by (induction ts arbitrary: st pend) simp_all

lemma deleteAll_resume_snd: "snd (deleteAll_resume deleteTodo i r) = []"
  by (cases r; cases "deleteTodo i") simp_all

lemma deleteAll_fold:
  "fold (\<lambda>i r. fst (deleteAll_resume deleteTodo i r)) ids (st, u) =
     ((if \<exists>i\<in>set ids. \<not> fulfilled (deleteTodo i)
       then st\<lparr>errorMessage := Some ''Unable to delete a todo''\<rparr> else st),
      filter (\<lambda>t. \<not> (id' t \<in> set ids \<and> fulfilled (deleteTodo (id' t)))) u)"
proof (induction ids arbitrary: st u)
  case Nil
  then show ?case by simp
next
  case (Cons i ids)
  show ?case
  proof (cases "deleteTodo i")
    case (Fulfilled v)
    then show ?thesis
      by (simp add: Cons.IH) (rule filter_cong, auto)
  next
    case (Rejected e)
    then show ?thesis
      by (simp add: Cons.IH) (rule filter_cong, auto)
  qed
qed

lemma deleteAll_settled:
  "allSettled (deleteAll_resume deleteTodo) picks ids (st, u) =
     (if length ids \<le> length picks
      then Some
        ((if \<exists>i\<in>set ids. \<not> fulfilled (deleteTodo i)
          then st\<lparr>errorMessage := Some ''Unable to delete a todo''\<rparr> else st),
         filter (\<lambda>t. \<not> (id' t \<in> set ids \<and> fulfilled (deleteTodo (id' t)))) u)
      else None)"
proof -
  have "\<forall>t\<in>set ids. \<forall>r. snd (deleteAll_resume deleteTodo t r) = []"
    by (simp add: deleteAll_resume_snd)
  from allSettled_no_respawn [OF this, of picks "(st, u)"] obtain perm where
    perm: "mset perm = mset ids"
    and run: "allSettled (deleteAll_resume deleteTodo) picks ids (st, u) =
      (if length ids \<le> length picks
       then Some (fold (\<lambda>t r. fst (deleteAll_resume deleteTodo t r)) perm (st, u)) else None)"
    by blast
  from perm have "set perm = set ids" by (rule mset_eq_setD)
  with run show ?thesis by (simp only: deleteAll_fold)
qed

lemma handleDeleteAll_run:
  "handleDeleteAll deleteTodo picks st =
     (if length (filter completed (todosFromServer st)) \<le> length picks
      then Some
        (st\<lparr>todosFromServer :=
               filter (\<lambda>t. \<not> (id' t \<in> id' ` set (filter completed (todosFromServer st))
                               \<and> fulfilled (deleteTodo (id' t))))
                 (todosFromServer st),
             deleteAll := False,
             errorMessage :=
               (if \<exists>t\<in>set (filter completed (todosFromServer st)). \<not> fulfilled (deleteTodo (id' t))
                then Some ''Unable to delete a todo'' else None),
             sent := sent st @ map (\<lambda>t. DeleteTodo (id' t)) (filter completed (todosFromServer st))\<rparr>,
         None)
      else None)"
  by (simp add: handleDeleteAll_def Let_def deleteAll_spawn deleteAll_settled)

lemma distinct_ids_member:
  assumes "distinct (map id' ts)" and "t \<in> set ts"
  shows "id' t \<in> id' ` set (filter P ts) \<longleftrightarrow> P t"
proof
  assume "id' t \<in> id' ` set (filter P ts)"
  then obtain s where s: "s \<in> set ts" "P s" "id' s = id' t" by auto
  from assms(1) have "inj_on id' (set ts)" by (simp add: distinct_map)
  with s assms(2) have "s = t" by (auto dest: inj_onD)
  with s show "P t" by simp
next
  assume "P t"
  with assms(2) show "id' t \<in> id' ` set (filter P ts)" by auto
qed

text \<open>
  Claim C1. Bulk delete (clear completed), for a list whose ids are unique, every
  answer of the store to each \<^verbatim>\<open>remove(id)\<close> and every order of settlement: once a
  pick is available for every completed item the handler returns; when it returns,
  the list is the original list without the completed items whose call
  succeeded, so no item whose call succeeded is left and no item whose call
  failed is dropped, and the error message is set if and only if some call
  failed (then to the delete-failure message).
\<close>

theorem handleDeleteAll_partial_failure:
  assumes "distinct (map id' (todosFromServer st))"
  shows "(length (filter completed (todosFromServer st)) \<le> length picks \<longrightarrow>
            handleDeleteAll deleteTodo picks st \<noteq> None)
       \<and> (\<forall>st' e. handleDeleteAll deleteTodo picks st = Some (st', e) \<longrightarrow>
            todosFromServer st' =
              filter (\<lambda>t. \<not> (completed t \<and> fulfilled (deleteTodo (id' t)))) (todosFromServer st)
          \<and> (\<forall>t\<in>set (todosFromServer st).
                completed t \<and> fulfilled (deleteTodo (id' t)) \<longrightarrow> t \<notin> set (todosFromServer st'))
          \<and> (\<forall>t\<in>set (todosFromServer st).
                completed t \<and> \<not> fulfilled (deleteTodo (id' t)) \<longrightarrow> t \<in> set (todosFromServer st'))
          \<and> (errorMessage st' \<noteq> None \<longleftrightarrow>
               (\<exists>t\<in>set (todosFromServer st). completed t \<and> \<not> fulfilled (deleteTodo (id' t))))
          \<and> (errorMessage st' = None \<or> errorMessage st' = Some ''Unable to delete a todo''))"
proof -
  let ?ts = "todosFromServer st"
  have eq: "filter (\<lambda>t. \<not> (id' t \<in> id' ` set (filter completed ?ts) \<and> fulfilled (deleteTodo (id' t)))) ?ts
          = filter (\<lambda>t. \<not> (completed t \<and> fulfilled (deleteTodo (id' t)))) ?ts"
  proof (rule filter_cong [OF refl])
    fix t assume "t \<in> set ?ts"
    then have "id' t \<in> id' ` set (filter completed ?ts) \<longleftrightarrow> completed t"
      by (rule distinct_ids_member [OF assms])
    then show "(\<not> (id' t \<in> id' ` set (filter completed ?ts) \<and> fulfilled (deleteTodo (id' t))))
             = (\<not> (completed t \<and> fulfilled (deleteTodo (id' t))))"
      by (simp only:)
  qed
  define kept where
    "kept = filter (\<lambda>t. \<not> (completed t \<and> fulfilled (deleteTodo (id' t)))) ?ts"
  define err where
    "err = (if \<exists>t\<in>set (filter completed ?ts). \<not> fulfilled (deleteTodo (id' t))
            then Some ''Unable to delete a todo'' else None)"
  have run: "handleDeleteAll deleteTodo picks st =
     (if length (filter completed ?ts) \<le> length picks
      then Some (st\<lparr>todosFromServer := kept, deleteAll := False, errorMessage := err,
                   sent := sent st @ map (\<lambda>t. DeleteTodo (id' t)) (filter completed ?ts)\<rparr>, None)
      else None)"
    unfolding kept_def err_def by (simp only: handleDeleteAll_run eq)
  have gone: "\<forall>t\<in>set ?ts. completed t \<and> fulfilled (deleteTodo (id' t)) \<longrightarrow> t \<notin> set kept"
    by (simp add: kept_def)
  have stay: "\<forall>t\<in>set ?ts. completed t \<and> \<not> fulfilled (deleteTodo (id' t)) \<longrightarrow> t \<in> set kept"
    by (simp add: kept_def)
  have err_iff: "err \<noteq> None \<longleftrightarrow> (\<exists>t\<in>set ?ts. completed t \<and> \<not> fulfilled (deleteTodo (id' t)))"
    by (auto simp add: err_def)
  have err_msg: "err = None \<or> err = Some ''Unable to delete a todo''"
    by (simp add: err_def)
  have result: "todosFromServer st' = kept \<and> errorMessage st' = err"
    if "handleDeleteAll deleteTodo picks st = Some (st', e)" for st' e
    using that run by (auto split: if_splits)
  have "length (filter completed ?ts) \<le> length picks \<longrightarrow> handleDeleteAll deleteTodo picks st \<noteq> None"
    by (simp add: run)
  moreover have "\<forall>st' e. handleDeleteAll deleteTodo picks st = Some (st', e) \<longrightarrow>
            todosFromServer st' = kept
          \<and> (\<forall>t\<in>set ?ts. completed t \<and> fulfilled (deleteTodo (id' t)) \<longrightarrow> t \<notin> set (todosFromServer st'))
          \<and> (\<forall>t\<in>set ?ts. completed t \<and> \<not> fulfilled (deleteTodo (id' t)) \<longrightarrow> t \<in> set (todosFromServer st'))
          \<and> (errorMessage st' \<noteq> None \<longleftrightarrow>
               (\<exists>t\<in>set ?ts. completed t \<and> \<not> fulfilled (deleteTodo (id' t))))
          \<and> (errorMessage st' = None \<or> errorMessage st' = Some ''Unable to delete a todo'')"
  proof (intro allI impI)
    fix st' e
    assume h: "handleDeleteAll deleteTodo picks st = Some (st', e)"
    from result [OF h] have a: "todosFromServer st' = kept" and b: "errorMessage st' = err"
      by simp_all
    show "todosFromServer st' = kept
          \<and> (\<forall>t\<in>set ?ts. completed t \<and> fulfilled (deleteTodo (id' t)) \<longrightarrow> t \<notin> set (todosFromServer st'))
          \<and> (\<forall>t\<in>set ?ts. completed t \<and> \<not> fulfilled (deleteTodo (id' t)) \<longrightarrow> t \<in> set (todosFromServer st'))
          \<and> (errorMessage st' \<noteq> None \<longleftrightarrow>
               (\<exists>t\<in>set ?ts. completed t \<and> \<not> fulfilled (deleteTodo (id' t))))
          \<and> (errorMessage st' = None \<or> errorMessage st' = Some ''Unable to delete a todo'')"
      unfolding a b by (intro conjI refl gone stay err_iff err_msg)
  qed
  ultimately show ?thesis unfolding kept_def by (rule conjI)
qed

theorem handleDeleteAll_partial_failure_witness:
  "distinct (map id' [todoA, todoC, todoD])
   \<and> (\<exists>st' e. handleDeleteAll (failingFor 3) [1, 0]
                 (initialState\<lparr>todosFromServer := [todoA, todoC, todoD]\<rparr>) = Some (st', e)
         \<and> todosFromServer st' = [todoA, todoC]
         \<and> errorMessage st' = Some ''Unable to delete a todo'')"
proof -
  let ?st = "initialState\<lparr>todosFromServer := [todoA, todoC, todoD]\<rparr>"
  have ts: "todosFromServer ?st = [todoA, todoC, todoD]" by simp
  have d: "distinct (map id' (todosFromServer ?st))"
    by (simp add: todoA_def todoC_def todoD_def)
  have f: "filter (\<lambda>t. \<not> (completed t \<and> fulfilled (failingFor 3 (id' t)))) (todosFromServer ?st)
           = [todoA, todoC]"
    by (simp add: todoA_def todoC_def todoD_def failingFor_def)
  have c: "\<exists>t\<in>set (todosFromServer ?st). completed t \<and> \<not> fulfilled (failingFor 3 (id' t))"
    by (simp add: todoA_def todoC_def todoD_def failingFor_def)
  have n: "length (filter completed (todosFromServer ?st)) \<le> length [1::nat, 0]"
    by (simp add: todoA_def todoC_def todoD_def)
  note main = handleDeleteAll_partial_failure [OF d, of "[1, 0]" "failingFor 3"]
  from main n have some: "handleDeleteAll (failingFor 3) [1, 0] ?st \<noteq> None"
    by (elim conjE) (erule mp)
  have res: "todosFromServer st' = [todoA, todoC]
         \<and> errorMessage st' = Some ''Unable to delete a todo''"
    if h: "handleDeleteAll (failingFor 3) [1, 0] ?st = Some (st', e)" for st' e
  proof -
    from main h have
      "todosFromServer st' =
         filter (\<lambda>t. \<not> (completed t \<and> fulfilled (failingFor 3 (id' t)))) (todosFromServer ?st)"
      and "errorMessage st' \<noteq> None \<longleftrightarrow>
            (\<exists>t\<in>set (todosFromServer ?st). completed t \<and> \<not> fulfilled (failingFor 3 (id' t)))"
      and "errorMessage st' = None \<or> errorMessage st' = Some ''Unable to delete a todo''"
      by blast+
    with f c show ?thesis by (simp only:) auto
  qed
  from some obtain st' e where
    h: "handleDeleteAll (failingFor 3) [1, 0] ?st = Some (st', e)"
    by (cases "handleDeleteAll (failingFor 3) [1, 0] ?st") auto
  from d ts have "distinct (map id' [todoA, todoC, todoD])" by simp
  with h res [OF h] show ?thesis by blast
qed

section \<open>Bulk toggle\<close>

lemma length_filter_all: "length (filter P xs) = length xs \<longleftrightarrow> (\<forall>x\<in>set xs. P x)"
proof (induction xs)
  case Nil
  then show ?case by simp
next
  case (Cons x xs)
  have "length (filter P xs) \<le> length xs" by (rule length_filter_le)
  then have "length (filter P xs) \<noteq> Suc (length xs)" by arith
  with Cons show ?case by auto
qed

lemma allCompleted_iff: "allCompleted st \<longleftrightarrow> (\<forall>t\<in>set (todosFromServer st). completed t)"
  by (simp add: allCompleted_def length_filter_all)

lemma toggle_spawn_all:
  "\<exists>ca. spawnAll (toggle_start True) ts (st, u) pend =
     ((st\<lparr>changeAll := ca,
           sent := sent st @ map (\<lambda>t. PatchTodo (id' t) (completedUpdate False)) ts\<rparr>, u),
      pend @ map (\<lambda>t. (id' t, completed t, FirstAwait)) ts)"
proof (induction ts arbitrary: st pend)
  case Nil
  have "st = st\<lparr>changeAll := changeAll st, sent := sent st @ []\<rparr>" by simp
  then show ?case by (intro exI [of _ "changeAll st"]) simp
next
  case (Cons t ts)
  let ?st = "st\<lparr>changeAll := Some ToggleCompleted,
                 sent := sent st @ [PatchTodo (id' t) (completedUpdate False)]\<rparr>"
  from Cons [of ?st "pend @ [(id' t, completed t, FirstAwait)]"] obtain ca where
    "spawnAll (toggle_start True) ts (?st, u) (pend @ [(id' t, completed t, FirstAwait)]) =
     ((?st\<lparr>changeAll := ca,
           sent := sent ?st @ map (\<lambda>t. PatchTodo (id' t) (completedUpdate False)) ts\<rparr>, u),
      (pend @ [(id' t, completed t, FirstAwait)]) @ map (\<lambda>t. (id' t, completed t, FirstAwait)) ts)"
    by blast
  then show ?case by (intro exI [of _ ca]) simp
qed

lemma toggle_map_kept: "map (toggle_map False True) u = u"
  by (induction u) (simp_all add: toggle_map_def)

lemma toggle_spawn_mixed:
  "\<exists>ca. spawnAll (toggle_start False) ts (st, u) pend =
     ((st\<lparr>changeAll := ca,
           sent := sent st @ map (\<lambda>t. PatchTodo (id' t) (completedUpdate True))
                               (filter (\<lambda>t. \<not> completed t) ts)\<rparr>, u),
      pend @ map (\<lambda>t. (id' t, False, SecondAwait)) (filter (\<lambda>t. \<not> completed t) ts))"
proof (induction ts arbitrary: st pend)
  case Nil
  have "st = st\<lparr>changeAll := changeAll st, sent := sent st @ []\<rparr>" by simp
  then show ?case by (intro exI [of _ "changeAll st"]) simp
next
  case (Cons t ts)
  show ?case
  proof (cases "completed t")
    case True
    from Cons [of st pend] obtain ca where
      "spawnAll (toggle_start False) ts (st, u) pend =
       ((st\<lparr>changeAll := ca,
             sent := sent st @ map (\<lambda>t. PatchTodo (id' t) (completedUpdate True))
                                 (filter (\<lambda>t. \<not> completed t) ts)\<rparr>, u),
        pend @ map (\<lambda>t. (id' t, False, SecondAwait)) (filter (\<lambda>t. \<not> completed t) ts))"
      by blast
    with True show ?thesis
      by (intro exI [of _ ca]) (simp add: toggle_map_kept)
  next
    case False
    let ?st = "st\<lparr>changeAll := Some ToggleActive,
                   sent := sent st @ [PatchTodo (id' t) (completedUpdate True)]\<rparr>"
    from Cons [of ?st "pend @ [(id' t, False, SecondAwait)]"] obtain ca where
      "spawnAll (toggle_start False) ts (?st, u) (pend @ [(id' t, False, SecondAwait)]) =
       ((?st\<lparr>changeAll := ca,
             sent := sent ?st @ map (\<lambda>t. PatchTodo (id' t) (completedUpdate True))
                                 (filter (\<lambda>t. \<not> completed t) ts)\<rparr>, u),
        (pend @ [(id' t, False, SecondAwait)])
          @ map (\<lambda>t. (id' t, False, SecondAwait)) (filter (\<lambda>t. \<not> completed t) ts))"
      by blast
    with False show ?thesis
      by (intro exI [of _ ca]) simp
  qed
qed

lemma toggle_resume_step:
  "toggle_resume ac patchTodo (i, ac, awaitOf ac) (st, u) =
     (if fulfilled (patchTodo i (completedUpdate (\<not> ac)))
      then ((st, map (\<lambda>t. t\<lparr>completed := \<not> ac\<rparr>) u), [])
      else ((st\<lparr>errorMessage := Some ''Unable to delete a todo''\<rparr>, u), []))"
  by (cases ac; cases "patchTodo i (completedUpdate (\<not> ac))")
     (simp_all add: awaitOf_def toggle_map_def)

lemma toggle_fold:
  assumes "\<forall>t\<in>set tk. snd t = (ac, awaitOf ac)"
  shows "fold (\<lambda>t r. fst (toggle_resume ac patchTodo t r)) tk (st, u) =
     ((if \<exists>t\<in>set tk. \<not> fulfilled (patchTodo (fst t) (completedUpdate (\<not> ac)))
       then st\<lparr>errorMessage := Some ''Unable to delete a todo''\<rparr> else st),
      (if \<exists>t\<in>set tk. fulfilled (patchTodo (fst t) (completedUpdate (\<not> ac)))
       then map (\<lambda>t. t\<lparr>completed := \<not> ac\<rparr>) u else u))"
  using assms
proof (induction tk arbitrary: st u)
  case Nil
  then show ?case by simp
next
  case (Cons t tk)
  from Cons.prems have t: "t = (fst t, ac, awaitOf ac)" by (cases t) simp
  from Cons.prems have rest: "\<forall>t\<in>set tk. snd t = (ac, awaitOf ac)" by simp
  have step: "fst (toggle_resume ac patchTodo t (st, u)) =
     (if fulfilled (patchTodo (fst t) (completedUpdate (\<not> ac)))
      then (st, map (\<lambda>t. t\<lparr>completed := \<not> ac\<rparr>) u)
      else (st\<lparr>errorMessage := Some ''Unable to delete a todo''\<rparr>, u))"
    by (subst t) (simp add: toggle_resume_step)
  show ?case
    by (simp add: step Cons.IH [OF rest] o_def)
qed

lemma toggle_settled:
  assumes shape: "\<forall>t\<in>set tk. snd t = (ac, awaitOf ac)"
  shows "allSettled (toggle_resume ac patchTodo) picks tk (st, u) =
     (if length tk \<le> length picks
      then Some
        ((if \<exists>t\<in>set tk. \<not> fulfilled (patchTodo (fst t) (completedUpdate (\<not> ac)))
          then st\<lparr>errorMessage := Some ''Unable to delete a todo''\<rparr> else st),
         (if \<exists>t\<in>set tk. fulfilled (patchTodo (fst t) (completedUpdate (\<not> ac)))
          then map (\<lambda>t. t\<lparr>completed := \<not> ac\<rparr>) u else u))
      else None)"
proof -
  have "\<forall>t\<in>set tk. \<forall>r. snd (toggle_resume ac patchTodo t r) = []"
  proof (intro ballI allI)
    fix t :: toggle_task and r :: bulk_run
    assume "t \<in> set tk"
    with shape have t: "t = (fst t, ac, awaitOf ac)" by (cases t) force
    obtain s v where r: "r = (s, v)" by (cases r)
    have "snd (toggle_resume ac patchTodo (fst t, ac, awaitOf ac) (s, v)) = []"
      by (simp add: toggle_resume_step)
    with t r show "snd (toggle_resume ac patchTodo t r) = []" by simp
  qed
  from allSettled_no_respawn [OF this, of picks "(st, u)"] obtain perm where
    perm: "mset perm = mset tk"
    and run: "allSettled (toggle_resume ac patchTodo) picks tk (st, u) =
      (if length tk \<le> length picks
       then Some (fold (\<lambda>t r. fst (toggle_resume ac patchTodo t r)) perm (st, u)) else None)"
    by blast
  from perm have eq: "set perm = set tk" by (rule mset_eq_setD)
  with shape have "\<forall>t\<in>set perm. snd t = (ac, awaitOf ac)" by simp
  from toggle_fold [OF this, of patchTodo st u] run eq show ?thesis by simp
qed

lemma handleToggleAll_run:
  "handleToggleAll patchTodo picks st =
     (if length (issuedFor st) \<le> length picks
      then Some
        (st\<lparr>todosFromServer :=
               (if \<exists>t\<in>set (issuedFor st).
                      fulfilled (patchTodo (id' t) (completedUpdate (\<not> allCompleted st)))
                then map (\<lambda>t. t\<lparr>completed := \<not> allCompleted st\<rparr>) (todosFromServer st)
                else todosFromServer st),
             changeAll := None,
             errorMessage :=
               (if \<exists>t\<in>set (issuedFor st).
                      \<not> fulfilled (patchTodo (id' t) (completedUpdate (\<not> allCompleted st)))
                then Some ''Unable to delete a todo'' else errorMessage st),
             sent := sent st @ map (\<lambda>t. PatchTodo (id' t) (completedUpdate (\<not> allCompleted st)))
                                 (issuedFor st)\<rparr>,
         None)
      else None)"
proof (cases "allCompleted st")
  case True
  let ?ts = "todosFromServer st"
  let ?tk = "map (\<lambda>t. (id' t, completed t, FirstAwait)) ?ts"
  from True have all: "\<forall>t\<in>set ?ts. completed t" by (simp add: allCompleted_iff)
  then have shape: "\<forall>t\<in>set ?tk. snd t = (True, awaitOf True)"
    by (simp add: awaitOf_def)
  from toggle_spawn_all [of ?ts st ?ts "[]"] obtain ca where
    spawn: "spawnAll (toggle_start True) ?ts (st, ?ts) [] =
      ((st\<lparr>changeAll := ca,
            sent := sent st @ map (\<lambda>t. PatchTodo (id' t) (completedUpdate False)) ?ts\<rparr>, ?ts), ?tk)"
    by auto
  show ?thesis
    using True
    by (auto simp add: handleToggleAll_def spawn toggle_settled [OF shape] issuedFor_def)
next
  case False
  let ?ts = "todosFromServer st"
  let ?is = "filter (\<lambda>t. \<not> completed t) ?ts"
  let ?tk = "map (\<lambda>t. (id' t, False, SecondAwait)) ?is"
  have shape: "\<forall>t\<in>set ?tk. snd t = (False, awaitOf False)"
    by (simp add: awaitOf_def)
  from toggle_spawn_mixed [of ?ts st ?ts "[]"] obtain ca where
    spawn: "spawnAll (toggle_start False) ?ts (st, ?ts) [] =
      ((st\<lparr>changeAll := ca,
            sent := sent st @ map (\<lambda>t. PatchTodo (id' t) (completedUpdate True)) ?is\<rparr>, ?ts), ?tk)"
    by auto
  show ?thesis
    using False
    by (auto simp add: handleToggleAll_def spawn toggle_settled [OF shape] issuedFor_def)
qed

lemma toggle_result_all_fulfilled:
  assumes "\<forall>t\<in>set (issuedFor st). fulfilled (patchTodo (id' t) (completedUpdate (\<not> allCompleted st)))"
  shows "(if \<exists>t\<in>set (issuedFor st).
                fulfilled (patchTodo (id' t) (completedUpdate (\<not> allCompleted st)))
          then map (\<lambda>t. t\<lparr>completed := \<not> allCompleted st\<rparr>) (todosFromServer st)
          else todosFromServer st) =
         (if allCompleted st then map (\<lambda>t. t\<lparr>completed := False\<rparr>) (todosFromServer st)
          else map (\<lambda>t. if completed t then t else t\<lparr>completed := True\<rparr>) (todosFromServer st))"
proof (cases "allCompleted st")
  case True
  show ?thesis
  proof (cases "todosFromServer st")
    case Nil
    with True show ?thesis by simp
  next
    case (Cons t ts)
    with True assms have "\<exists>t\<in>set (issuedFor st).
        fulfilled (patchTodo (id' t) (completedUpdate (\<not> allCompleted st)))"
      by (simp add: issuedFor_def)
    with True show ?thesis by simp
  qed
next
  case False
  then obtain t where t: "t \<in> set (todosFromServer st)" "\<not> completed t"
    by (auto simp add: allCompleted_iff)
  with False have "t \<in> set (issuedFor st)" by (simp add: issuedFor_def)
  with assms have ex: "\<exists>t\<in>set (issuedFor st).
        fulfilled (patchTodo (id' t) (completedUpdate (\<not> allCompleted st)))"
    by blast
  have "map (\<lambda>t. t\<lparr>completed := True\<rparr>) (todosFromServer st) =
        map (\<lambda>t. if completed t then t else t\<lparr>completed := True\<rparr>) (todosFromServer st)"
    by (rule map_cong) simp_all
  with False ex show ?thesis by simp
qed

lemma toggle_result_completed_kept:
  assumes "\<not> allCompleted st" and "k < length (todosFromServer st)"
    and "completed (todosFromServer st ! k)"
  shows "(if c then map (\<lambda>t. t\<lparr>completed := \<not> allCompleted st\<rparr>) (todosFromServer st)
          else todosFromServer st) ! k = todosFromServer st ! k"
  using assms by simp

text \<open>
  Claim C3. Bulk toggle, direction: the payload of every call is the negation of
  \<open>allCompleted\<close> of the state at invocation; the calls issued are one per item
  when all items are completed, and one per not-completed item otherwise (none for
  a completed item). Once a pick is available for every call the handler returns.
  When every issued call succeeds, all items become not-completed in the first
  case, and in the second case the not-completed items become completed; in the
  second case a completed item is left as it is, whatever the calls answer.
\<close>

theorem handleToggleAll_direction:
  "(length (issuedFor st) \<le> length picks \<longrightarrow> handleToggleAll patchTodo picks st \<noteq> None)
   \<and> (\<forall>st' e. handleToggleAll patchTodo picks st = Some (st', e) \<longrightarrow>
         sent st' = sent st @ map (\<lambda>t. PatchTodo (id' t) (completedUpdate (\<not> allCompleted st)))
                               (issuedFor st)
       \<and> ((\<forall>t\<in>set (issuedFor st).
              fulfilled (patchTodo (id' t) (completedUpdate (\<not> allCompleted st)))) \<longrightarrow>
            todosFromServer st' =
              (if allCompleted st then map (\<lambda>t. t\<lparr>completed := False\<rparr>) (todosFromServer st)
               else map (\<lambda>t. if completed t then t else t\<lparr>completed := True\<rparr>)
                      (todosFromServer st)))
       \<and> (\<not> allCompleted st \<longrightarrow>
            length (todosFromServer st') = length (todosFromServer st)
            \<and> (\<forall>k<length (todosFromServer st).
                  completed (todosFromServer st ! k) \<longrightarrow>
                  todosFromServer st' ! k = todosFromServer st ! k)))"
proof -
  define c where "c \<longleftrightarrow> (\<exists>t\<in>set (issuedFor st).
      fulfilled (patchTodo (id' t) (completedUpdate (\<not> allCompleted st))))"
  define res where "res = (if c then map (\<lambda>t. t\<lparr>completed := \<not> allCompleted st\<rparr>) (todosFromServer st)
          else todosFromServer st)"
  define err where "err = (if \<exists>t\<in>set (issuedFor st).
                      \<not> fulfilled (patchTodo (id' t) (completedUpdate (\<not> allCompleted st)))
                then Some ''Unable to delete a todo'' else errorMessage st)"
  define log where "log = sent st @ map (\<lambda>t. PatchTodo (id' t) (completedUpdate (\<not> allCompleted st)))
                               (issuedFor st)"
  have run: "handleToggleAll patchTodo picks st =
     (if length (issuedFor st) \<le> length picks
      then Some (st\<lparr>todosFromServer := res, changeAll := None, errorMessage := err, sent := log\<rparr>, None)
      else None)"
    unfolding res_def c_def err_def log_def by (rule handleToggleAll_run)
  have final: "todosFromServer st' = res \<and> sent st' = log"
    if "handleToggleAll patchTodo picks st = Some (st', e)" for st' e
    using that run by (auto split: if_splits)
  have a: "length (issuedFor st) \<le> length picks \<longrightarrow> handleToggleAll patchTodo picks st \<noteq> None"
    by (simp add: run)
  have b: "(\<forall>t\<in>set (issuedFor st).
              fulfilled (patchTodo (id' t) (completedUpdate (\<not> allCompleted st)))) \<longrightarrow>
            res = (if allCompleted st then map (\<lambda>t. t\<lparr>completed := False\<rparr>) (todosFromServer st)
               else map (\<lambda>t. if completed t then t else t\<lparr>completed := True\<rparr>)
                      (todosFromServer st))"
    unfolding res_def c_def by (intro impI) (rule toggle_result_all_fulfilled)
  have d: "\<not> allCompleted st \<longrightarrow>
            length res = length (todosFromServer st)
            \<and> (\<forall>k<length (todosFromServer st).
                  completed (todosFromServer st ! k) \<longrightarrow> res ! k = todosFromServer st ! k)"
    unfolding res_def by (simp add: toggle_result_completed_kept)
  have "\<forall>st' e. handleToggleAll patchTodo picks st = Some (st', e) \<longrightarrow>
         sent st' = log
       \<and> ((\<forall>t\<in>set (issuedFor st).
              fulfilled (patchTodo (id' t) (completedUpdate (\<not> allCompleted st)))) \<longrightarrow>
            todosFromServer st' =
              (if allCompleted st then map (\<lambda>t. t\<lparr>completed := False\<rparr>) (todosFromServer st)
               else map (\<lambda>t. if completed t then t else t\<lparr>completed := True\<rparr>)
                      (todosFromServer st)))
       \<and> (\<not> allCompleted st \<longrightarrow>
            length (todosFromServer st') = length (todosFromServer st)
            \<and> (\<forall>k<length (todosFromServer st).
                  completed (todosFromServer st ! k) \<longrightarrow>
                  todosFromServer st' ! k = todosFromServer st ! k))"
  proof (intro allI impI)
    fix st' e
    assume h: "handleToggleAll patchTodo picks st = Some (st', e)"
    from final [OF h] have x: "todosFromServer st' = res" and y: "sent st' = log" by simp_all
    show "sent st' = log
       \<and> ((\<forall>t\<in>set (issuedFor st).
              fulfilled (patchTodo (id' t) (completedUpdate (\<not> allCompleted st)))) \<longrightarrow>
            todosFromServer st' =
              (if allCompleted st then map (\<lambda>t. t\<lparr>completed := False\<rparr>) (todosFromServer st)
               else map (\<lambda>t. if completed t then t else t\<lparr>completed := True\<rparr>)
                      (todosFromServer st)))
       \<and> (\<not> allCompleted st \<longrightarrow>
            length (todosFromServer st') = length (todosFromServer st)
            \<and> (\<forall>k<length (todosFromServer st).
                  completed (todosFromServer st ! k) \<longrightarrow>
                  todosFromServer st' ! k = todosFromServer st ! k))"
      unfolding x y by (intro conjI refl b d)
  qed
  with a show ?thesis unfolding log_def by (rule conjI)
qed

theorem handleToggleAll_direction_witness:
  "(\<exists>st' e. handleToggleAll patchOk [1, 0] (initialState\<lparr>todosFromServer := [todoC, todoD]\<rparr>)
               = Some (st', e)
      \<and> sent st' = [PatchTodo 3 (completedUpdate False), PatchTodo 4 (completedUpdate False)]
      \<and> todosFromServer st' = [todoC\<lparr>completed := False\<rparr>, todoD\<lparr>completed := False\<rparr>])
   \<and> (\<exists>st' e. handleToggleAll patchOk [0] (initialState\<lparr>todosFromServer := [todoA, todoC]\<rparr>)
               = Some (st', e)
      \<and> sent st' = [PatchTodo 1 (completedUpdate True)]
      \<and> todosFromServer st' = [todoA\<lparr>completed := True\<rparr>, todoC])"
proof -
  let ?done = "initialState\<lparr>todosFromServer := [todoC, todoD]\<rparr>"
  let ?mixed = "initialState\<lparr>todosFromServer := [todoA, todoC]\<rparr>"
  have ac1: "allCompleted ?done" and ac2: "\<not> allCompleted ?mixed"
    by (simp_all add: allCompleted_def todoA_def todoC_def todoD_def)
  have i1: "issuedFor ?done = [todoC, todoD]" and i2: "issuedFor ?mixed = [todoA]"
    using ac1 ac2 by (simp_all add: issuedFor_def todoA_def todoC_def)
  have ok1: "\<forall>t\<in>set (issuedFor ?done). fulfilled (patchOk (id' t) (completedUpdate (\<not> allCompleted ?done)))"
    and ok2: "\<forall>t\<in>set (issuedFor ?mixed). fulfilled (patchOk (id' t) (completedUpdate (\<not> allCompleted ?mixed)))"
    by (simp_all add: patchOk_def)
  have n1: "length (issuedFor ?done) \<le> length [1::nat, 0]"
    and n2: "length (issuedFor ?mixed) \<le> length [0::nat]"
    by (simp_all add: i1 i2)
  note d1 = handleToggleAll_direction [of ?done "[1, 0]" patchOk]
  note d2 = handleToggleAll_direction [of ?mixed "[0]" patchOk]
  from d1 n1 have "handleToggleAll patchOk [1, 0] ?done \<noteq> None" by blast
  then obtain s1 e1 where h1: "handleToggleAll patchOk [1, 0] ?done = Some (s1, e1)"
    by (cases "handleToggleAll patchOk [1, 0] ?done") auto
  from d2 n2 have "handleToggleAll patchOk [0] ?mixed \<noteq> None" by blast
  then obtain s2 e2 where h2: "handleToggleAll patchOk [0] ?mixed = Some (s2, e2)"
    by (cases "handleToggleAll patchOk [0] ?mixed") auto
  from d1 h1 ok1 have
    "sent s1 = sent ?done @ map (\<lambda>t. PatchTodo (id' t) (completedUpdate (\<not> allCompleted ?done)))
                              (issuedFor ?done)"
    and "todosFromServer s1 =
      (if allCompleted ?done then map (\<lambda>t. t\<lparr>completed := False\<rparr>) (todosFromServer ?done)
       else map (\<lambda>t. if completed t then t else t\<lparr>completed := True\<rparr>) (todosFromServer ?done))"
    by blast+
  with ac1 i1 have r1: "sent s1 = [PatchTodo 3 (completedUpdate False), PatchTodo 4 (completedUpdate False)]
      \<and> todosFromServer s1 = [todoC\<lparr>completed := False\<rparr>, todoD\<lparr>completed := False\<rparr>]"
    by (simp add: initialState_def todoC_def todoD_def)
  from d2 h2 ok2 have
    "sent s2 = sent ?mixed @ map (\<lambda>t. PatchTodo (id' t) (completedUpdate (\<not> allCompleted ?mixed)))
                              (issuedFor ?mixed)"
    and "todosFromServer s2 =
      (if allCompleted ?mixed then map (\<lambda>t. t\<lparr>completed := False\<rparr>) (todosFromServer ?mixed)
       else map (\<lambda>t. if completed t then t else t\<lparr>completed := True\<rparr>) (todosFromServer ?mixed))"
    by blast+
  with ac2 i2 have r2: "sent s2 = [PatchTodo 1 (completedUpdate True)]
      \<and> todosFromServer s2 = [todoA\<lparr>completed := True\<rparr>, todoC]"
    by (simp add: initialState_def todoA_def todoC_def)
  from h1 r1 h2 r2 show ?thesis by blast
qed

section \<open>Operations on a single todo: properties\<close>

lemma filter_other_ids:
  assumes "distinct (map f xs)" and "t \<in> set xs"
  shows "filter (\<lambda>x. f x \<noteq> f t) xs = remove1 t xs"
  using assms
proof (induction xs)
  case Nil
  then show ?case by simp
next
  case (Cons a xs)
  show ?case
  proof (cases "a = t")
    case True
    from Cons.prems(1) True have "f t \<notin> f ` set xs" by simp
    then have "\<forall>x\<in>set xs. f x \<noteq> f t" by (metis image_eqI)
    then have "filter (\<lambda>x. f x \<noteq> f t) xs = xs" by simp
    with True show ?thesis by simp
  next
    case False
    with Cons.prems have t: "t \<in> set xs" by simp
    with Cons.prems(1) have "f a \<noteq> f t" by auto
    moreover from Cons.prems(1) have "distinct (map f xs)" by simp
    ultimately show ?thesis using Cons.IH t False by simp
  qed
qed

text \<open>
  Claim C9. Delete-one, for an id present in the list: when \<^verbatim>\<open>remove(id)\<close> succeeds
  the new list is the old one without the entries of that id, every other entry
  unchanged and in place (with unique ids: the old list with exactly that entry
  removed); when it fails the list is the one before the call and the error
  message is the delete-failure message.
\<close>

theorem handleDeleteTodo_frame:
  assumes "t \<in> set (todosFromServer st)" and "id' t = i"
  shows "(\<forall>u. deleteTodo i = Fulfilled u \<longrightarrow>
            todosFromServer (fst (handleDeleteTodo deleteTodo st i)) =
              filter (\<lambda>x. id' x \<noteq> i) (todosFromServer st)
          \<and> i \<notin> id' ` set (todosFromServer (fst (handleDeleteTodo deleteTodo st i)))
          \<and> (distinct (map id' (todosFromServer st)) \<longrightarrow>
               todosFromServer (fst (handleDeleteTodo deleteTodo st i)) =
                 remove1 t (todosFromServer st)))
       \<and> (\<forall>e. deleteTodo i = Rejected e \<longrightarrow>
            todosFromServer (fst (handleDeleteTodo deleteTodo st i)) = todosFromServer st
          \<and> errorMessage (fst (handleDeleteTodo deleteTodo st i)) = Some ''Unable to delete a todo'')"
proof -
  have r: "distinct (map id' (todosFromServer st)) \<longrightarrow>
      filter (\<lambda>x. id' x \<noteq> i) (todosFromServer st) = remove1 t (todosFromServer st)"
    using filter_other_ids [of id' "todosFromServer st" t] assms by simp
  show ?thesis
    using r by (auto simp add: handleDeleteTodo_def Let_def)
qed

theorem handleDeleteTodo_frame_witness:
  "todoC \<in> set [todoA, todoC, todoD] \<and> id' todoC = 3
   \<and> todosFromServer (fst (handleDeleteTodo (failingFor 4)
        (initialState\<lparr>todosFromServer := [todoA, todoC, todoD]\<rparr>) 3)) = [todoA, todoD]
   \<and> todoD \<in> set [todoA, todoC, todoD] \<and> id' todoD = 4
   \<and> todosFromServer (fst (handleDeleteTodo (failingFor 4)
        (initialState\<lparr>todosFromServer := [todoA, todoC, todoD]\<rparr>) 4)) = [todoA, todoC, todoD]
   \<and> errorMessage (fst (handleDeleteTodo (failingFor 4)
        (initialState\<lparr>todosFromServer := [todoA, todoC, todoD]\<rparr>) 4))
       = Some ''Unable to delete a todo''"
proof -
  let ?st = "initialState\<lparr>todosFromServer := [todoA, todoC, todoD]\<rparr>"
  have c: "todoC \<in> set (todosFromServer ?st)" and d: "todoD \<in> set (todosFromServer ?st)"
    by simp_all
  have ic: "id' todoC = 3" and idd: "id' todoD = 4"
    by (simp_all add: todoC_def todoD_def)
  have ok: "failingFor 4 3 = Fulfilled ()" and bad: "failingFor 4 4 = Rejected ErrorInstance"
    by (simp_all add: failingFor_def)
  have dist: "distinct (map id' (todosFromServer ?st))"
    by (simp add: todoA_def todoC_def todoD_def)
  have rm: "remove1 todoC (todosFromServer ?st) = [todoA, todoD]"
    by (simp add: todoA_def todoC_def todoD_def)
  from handleDeleteTodo_frame [OF c ic, of "failingFor 4"] ok dist
  have "todosFromServer (fst (handleDeleteTodo (failingFor 4) ?st 3))
          = remove1 todoC (todosFromServer ?st)"
    by blast
  with rm have 1: "todosFromServer (fst (handleDeleteTodo (failingFor 4) ?st 3)) = [todoA, todoD]"
    by (simp only:)
  from handleDeleteTodo_frame [OF d idd, of "failingFor 4"] bad
  have "todosFromServer (fst (handleDeleteTodo (failingFor 4) ?st 4)) = todosFromServer ?st"
    and 3: "errorMessage (fst (handleDeleteTodo (failingFor 4) ?st 4))
              = Some ''Unable to delete a todo''"
    by blast+
  then have 2: "todosFromServer (fst (handleDeleteTodo (failingFor 4) ?st 4))
                  = [todoA, todoC, todoD]"
    by simp
  have m: "todoC \<in> set [todoA, todoC, todoD]" "todoD \<in> set [todoA, todoC, todoD]"
    by simp_all
  from 1 2 3 ic idd m show ?thesis by (intro conjI)
qed

text \<open>
  Claim C10. Update-one, when the update call rejects with a value that is not an
  instance of \<^verbatim>\<open>Error\<close>: the error message is left as it was, nothing is raised to
  the caller and the list is unchanged.
\<close>

theorem handleChangeTodo_non_error_rejection:
  assumes "patchTodo i (makeUpdate d) = Rejected e" and "\<not> instanceofError e"
  shows "errorMessage (fst (handleChangeTodo patchTodo st i d)) = errorMessage st
       \<and> snd (handleChangeTodo patchTodo st i d) = None
       \<and> todosFromServer (fst (handleChangeTodo patchTodo st i d)) = todosFromServer st"
  using assms by (simp add: handleChangeTodo_def Let_def)

theorem handleChangeTodo_non_error_rejection_witness:
  "patchRejecting OtherValue 1 (makeUpdate (BoolData True)) = Rejected OtherValue
   \<and> \<not> instanceofError OtherValue
   \<and> errorMessage (fst (handleChangeTodo (patchRejecting OtherValue)
        (initialState\<lparr>todosFromServer := [todoA]\<rparr>) 1 (BoolData True))) = None
   \<and> snd (handleChangeTodo (patchRejecting OtherValue)
        (initialState\<lparr>todosFromServer := [todoA]\<rparr>) 1 (BoolData True)) = None
   \<and> todosFromServer (fst (handleChangeTodo (patchRejecting OtherValue)
        (initialState\<lparr>todosFromServer := [todoA]\<rparr>) 1 (BoolData True))) = [todoA]"
proof -
  have r: "patchRejecting OtherValue 1 (makeUpdate (BoolData True)) = Rejected OtherValue"
    by (simp add: patchRejecting_def)
  have n: "\<not> instanceofError OtherValue" by simp
  from handleChangeTodo_non_error_rejection
      [of "patchRejecting OtherValue" 1 "BoolData True" OtherValue
          "initialState\<lparr>todosFromServer := [todoA]\<rparr>"] r n
  show ?thesis by (simp add: initialState_def)
qed

text \<open>
  The update call may also reject with a value that is not an \<^verbatim>\<open>Error\<close>; then
  neither the message is set nor the rejection passed on.
\<close>

theorem handleChangeTodo_rejection_counterexample:
  "\<not> (errorMessage (fst (handleChangeTodo (patchRejecting OtherValue)
           (initialState\<lparr>todosFromServer := [todoA]\<rparr>) 1 (BoolData True)))
         = Some ''Unable to update a todo''
       \<and> snd (handleChangeTodo (patchRejecting OtherValue)
           (initialState\<lparr>todosFromServer := [todoA]\<rparr>) 1 (BoolData True)) = Some OtherValue)"
  by (simp add: handleChangeTodo_def Let_def patchRejecting_def)

text \<open>
  Claim C6, amended. Update-one, when the update call rejects with an instance of
  \<^verbatim>\<open>Error\<close>: the error message is the update-failure message, the list is
  unchanged and the rejection is raised to the caller. No other operation (load,
  create, delete-one, bulk delete, bulk toggle) raises anything to its caller.
\<close>

theorem handleChangeTodo_error_propagates:
  "(\<forall>e. patchTodo i (makeUpdate d) = Rejected e \<and> instanceofError e \<longrightarrow>
        errorMessage (fst (handleChangeTodo patchTodo st i d)) = Some ''Unable to update a todo''
      \<and> todosFromServer (fst (handleChangeTodo patchTodo st i d)) = todosFromServer st
      \<and> snd (handleChangeTodo patchTodo st i d) = Some e)
   \<and> snd (loadTodos getTodos st) = None
   \<and> snd (handlePostTodo postTodo st) = None
   \<and> snd (handleDeleteTodo deleteTodo st j) = None
   \<and> (\<forall>r. handleDeleteAll deleteTodo picks st = Some r \<longrightarrow> snd r = None)
   \<and> (\<forall>r. handleToggleAll patchTodo picks st = Some r \<longrightarrow> snd r = None)"
proof -
  have 1: "\<forall>e. patchTodo i (makeUpdate d) = Rejected e \<and> instanceofError e \<longrightarrow>
        errorMessage (fst (handleChangeTodo patchTodo st i d)) = Some ''Unable to update a todo''
      \<and> todosFromServer (fst (handleChangeTodo patchTodo st i d)) = todosFromServer st
      \<and> snd (handleChangeTodo patchTodo st i d) = Some e"
    by (simp add: handleChangeTodo_def Let_def)
  have 2: "snd (loadTodos getTodos st) = None"
    by (simp add: loadTodos_def Let_def split: outcome.split)
  have 3: "snd (handlePostTodo postTodo st) = None"
    by (simp add: handlePostTodo_def Let_def)
  have 4: "snd (handleDeleteTodo deleteTodo st j) = None"
    by (simp add: handleDeleteTodo_def Let_def)
  have 5: "\<forall>r. handleDeleteAll deleteTodo picks st = Some r \<longrightarrow> snd r = None"
    by (auto simp add: handleDeleteAll_run split: if_splits)
  have 6: "\<forall>r. handleToggleAll patchTodo picks st = Some r \<longrightarrow> snd r = None"
    by (auto simp add: handleToggleAll_run split: if_splits)
  from 1 2 3 4 5 6 show ?thesis by (intro conjI)
qed

theorem handleChangeTodo_error_propagates_witness:
  "patchRejecting ErrorInstance 1 (makeUpdate (BoolData True)) = Rejected ErrorInstance
   \<and> instanceofError ErrorInstance
   \<and> errorMessage (fst (handleChangeTodo (patchRejecting ErrorInstance)
        (initialState\<lparr>todosFromServer := [todoA]\<rparr>) 1 (BoolData True)))
       = Some ''Unable to update a todo''
   \<and> todosFromServer (fst (handleChangeTodo (patchRejecting ErrorInstance)
        (initialState\<lparr>todosFromServer := [todoA]\<rparr>) 1 (BoolData True))) = [todoA]
   \<and> snd (handleChangeTodo (patchRejecting ErrorInstance)
        (initialState\<lparr>todosFromServer := [todoA]\<rparr>) 1 (BoolData True)) = Some ErrorInstance"
proof -
  let ?st = "initialState\<lparr>todosFromServer := [todoA]\<rparr>"
  have r: "patchRejecting ErrorInstance 1 (makeUpdate (BoolData True)) = Rejected ErrorInstance"
    by (simp add: patchRejecting_def)
  have n: "instanceofError ErrorInstance" by simp
  from handleChangeTodo_error_propagates
      [of "patchRejecting ErrorInstance" 1 "BoolData True" ?st] r n
  have "errorMessage (fst (handleChangeTodo (patchRejecting ErrorInstance) ?st 1 (BoolData True)))
          = Some ''Unable to update a todo''
      \<and> todosFromServer (fst (handleChangeTodo (patchRejecting ErrorInstance) ?st 1 (BoolData True)))
          = todosFromServer ?st
      \<and> snd (handleChangeTodo (patchRejecting ErrorInstance) ?st 1 (BoolData True))
          = Some ErrorInstance"
    by blast
  with r n show ?thesis by simp
qed

text \<open>
  Claim C5. Create: the title sent is the trimmed input. When the trimmed input is
  empty the error message is the title-required message, no call is made and the
  list is unchanged. Otherwise one create call is made with the trimmed title;
  when it succeeds the returned todo is appended to the end of the list, and when
  it fails the error message is the add-failure message and the list is unchanged.
\<close>

theorem handlePostTodo_create:
  "(trim (inputValue st) = [] \<longrightarrow>
       errorMessage (fst (handlePostTodo postTodo st)) = Some ''Title should not be empty''
     \<and> sent (fst (handlePostTodo postTodo st)) = sent st
     \<and> todosFromServer (fst (handlePostTodo postTodo st)) = todosFromServer st)
   \<and> (trim (inputValue st) \<noteq> [] \<longrightarrow>
       sent (fst (handlePostTodo postTodo st)) = sent st @ [PostTodo (trim (inputValue st))]
     \<and> (\<forall>newPost. postTodo (trim (inputValue st)) = Fulfilled newPost \<longrightarrow>
           todosFromServer (fst (handlePostTodo postTodo st)) = todosFromServer st @ [newPost]
         \<and> errorMessage (fst (handlePostTodo postTodo st)) = None)
     \<and> (\<forall>e. postTodo (trim (inputValue st)) = Rejected e \<longrightarrow>
           errorMessage (fst (handlePostTodo postTodo st)) = Some ''Unable to add a todo''
         \<and> todosFromServer (fst (handlePostTodo postTodo st)) = todosFromServer st))"
  by (cases "postTodo (trim (inputValue st))") (simp_all add: handlePostTodo_def Let_def)

theorem handlePostTodo_create_witness:
  "trim [0x20, 0x20, 0x20] = []
   \<and> errorMessage (fst (handlePostTodo (postAnswering (Fulfilled todoB))
        (initialState\<lparr>todosFromServer := [todoA], inputValue := [0x20, 0x20, 0x20]\<rparr>)))
       = Some ''Title should not be empty''
   \<and> sent (fst (handlePostTodo (postAnswering (Fulfilled todoB))
        (initialState\<lparr>todosFromServer := [todoA], inputValue := [0x20, 0x20, 0x20]\<rparr>))) = []
   \<and> trim [0x20, 0x62, 0x20] = [0x62]
   \<and> sent (fst (handlePostTodo (postAnswering (Fulfilled todoB))
        (initialState\<lparr>todosFromServer := [todoA], inputValue := [0x20, 0x62, 0x20]\<rparr>)))
       = [PostTodo [0x62]]
   \<and> todosFromServer (fst (handlePostTodo (postAnswering (Fulfilled todoB))
        (initialState\<lparr>todosFromServer := [todoA], inputValue := [0x20, 0x62, 0x20]\<rparr>)))
       = [todoA, todoB]
   \<and> errorMessage (fst (handlePostTodo (postAnswering (Rejected ErrorInstance))
        (initialState\<lparr>todosFromServer := [todoA], inputValue := [0x20, 0x62, 0x20]\<rparr>)))
       = Some ''Unable to add a todo''
   \<and> todosFromServer (fst (handlePostTodo (postAnswering (Rejected ErrorInstance))
        (initialState\<lparr>todosFromServer := [todoA], inputValue := [0x20, 0x62, 0x20]\<rparr>)))
       = [todoA]"
proof -
  let ?blank = "initialState\<lparr>todosFromServer := [todoA], inputValue := [0x20, 0x20, 0x20]\<rparr>"
  let ?milk = "initialState\<lparr>todosFromServer := [todoA], inputValue := [0x20, 0x62, 0x20]\<rparr>"
  have t1: "trim [0x20, 0x20, 0x20] = []"
    by (simp add: trim_def isWhiteSpace_def)
  have t2: "trim [0x20, 0x62, 0x20] = [0x62]"
    by (simp add: trim_def isWhiteSpace_def)
  have b: "trim (inputValue ?blank) = []" using t1 by simp
  have m: "trim (inputValue ?milk) = [0x62]" using t2 by simp
  have ne: "trim (inputValue ?milk) \<noteq> []" using m by simp
  have ok: "postAnswering (Fulfilled todoB) (trim (inputValue ?milk)) = Fulfilled todoB"
    and bad: "postAnswering (Rejected ErrorInstance) (trim (inputValue ?milk)) = Rejected ErrorInstance"
    by (simp_all add: postAnswering_def)
  from handlePostTodo_create [of ?blank "postAnswering (Fulfilled todoB)"] b
  have 1: "errorMessage (fst (handlePostTodo (postAnswering (Fulfilled todoB)) ?blank))
             = Some ''Title should not be empty''"
    and 2: "sent (fst (handlePostTodo (postAnswering (Fulfilled todoB)) ?blank)) = sent ?blank"
    by blast+
  from handlePostTodo_create [of ?milk "postAnswering (Fulfilled todoB)"] ne ok
  have 3: "sent (fst (handlePostTodo (postAnswering (Fulfilled todoB)) ?milk))
             = sent ?milk @ [PostTodo (trim (inputValue ?milk))]"
    and 4: "todosFromServer (fst (handlePostTodo (postAnswering (Fulfilled todoB)) ?milk))
             = todosFromServer ?milk @ [todoB]"
    by blast+
  from handlePostTodo_create [of ?milk "postAnswering (Rejected ErrorInstance)"] ne bad
  have 5: "errorMessage (fst (handlePostTodo (postAnswering (Rejected ErrorInstance)) ?milk))
             = Some ''Unable to add a todo''"
    and 6: "todosFromServer (fst (handlePostTodo (postAnswering (Rejected ErrorInstance)) ?milk))
             = todosFromServer ?milk"
    by blast+
  have s: "sent ?blank = []" "sent ?milk = []" by (simp_all add: initialState_def)
  from 2 s have s2: "sent (fst (handlePostTodo (postAnswering (Fulfilled todoB)) ?blank)) = []"
    by simp
  from 3 s m have s3: "sent (fst (handlePostTodo (postAnswering (Fulfilled todoB)) ?milk))
             = [PostTodo [0x62]]"
    by simp
  from 4 have s4: "todosFromServer (fst (handlePostTodo (postAnswering (Fulfilled todoB)) ?milk))
             = [todoA, todoB]"
    by simp
  from 6 have s6: "todosFromServer (fst (handlePostTodo (postAnswering (Rejected ErrorInstance)) ?milk))
             = [todoA]"
    by simp
  from t1 1 s2 t2 s3 s4 5 s6 show ?thesis by (intro conjI)
qed

section \<open>Concrete runs\<close>

text \<open>
  Claim C2, evaluated: of two active items the update call of the first succeeds
  and the one of the second fails. In every order of settlement the second item
  is completed in the new list as well: the success of one call sets the flag of
  every item of the working copy.
\<close>

theorem handleToggleAll_failed_item_changed:
  "handleToggleAll (patchFailingFor 2) [p, q] (initialState\<lparr>todosFromServer := [todoA, todoB]\<rparr>) =
     Some (initialState
            \<lparr>todosFromServer := [todoA\<lparr>completed := True\<rparr>, todoB\<lparr>completed := True\<rparr>],
             errorMessage := Some ''Unable to delete a todo'',
             sent := [PatchTodo 1 (completedUpdate True), PatchTodo 2 (completedUpdate True)]\<rparr>,
           None)"
  by (simp add: handleToggleAll_run issuedFor_def allCompleted_def patchFailingFor_def
        todoA_def todoB_def initialState_def)

text \<open>
  Claim C4, evaluated: the update call of the only item fails with an \<^verbatim>\<open>Error\<close>. The
  error message set is the delete-failure message, not the update-failure
  message.
\<close>

theorem handleToggleAll_failure_message:
  "\<exists>st'. handleToggleAll (patchFailingFor 1) [p] (initialState\<lparr>todosFromServer := [todoA]\<rparr>)
            = Some (st', None)
        \<and> errorMessage st' = Some ''Unable to delete a todo''
        \<and> errorMessage st' \<noteq> Some ''Unable to update a todo''"
  by (simp add: handleToggleAll_run issuedFor_def allCompleted_def patchFailingFor_def
        todoA_def initialState_def)

text \<open>
  Claim C8, evaluated: an error message is shown, left by an earlier operation.
  Bulk toggle and update-one, with every call succeeding, end with that message
  still in place: neither clears it, at the start or later.
\<close>

theorem toggle_and_update_keep_old_error:
  "(\<exists>st'. handleToggleAll patchOk [p]
             (initialState\<lparr>todosFromServer := [todoA],
                            errorMessage := Some ''Unable to add a todo''\<rparr>) = Some (st', None)
         \<and> sent st' = [PatchTodo 1 (completedUpdate True)]
         \<and> errorMessage st' = Some ''Unable to add a todo'')
   \<and> sent (fst (handleChangeTodo patchOk
        (initialState\<lparr>todosFromServer := [todoA],
                       errorMessage := Some ''Unable to add a todo''\<rparr>) 1 (BoolData True)))
       = [PatchTodo 1 (completedUpdate True)]
   \<and> errorMessage (fst (handleChangeTodo patchOk
        (initialState\<lparr>todosFromServer := [todoA],
                       errorMessage := Some ''Unable to add a todo''\<rparr>) 1 (BoolData True)))
       = Some ''Unable to add a todo''"
  by (simp add: handleToggleAll_run issuedFor_def allCompleted_def patchOk_def
        handleChangeTodo_def Let_def makeUpdate_def completedUpdate_def
        todoA_def initialState_def)

text \<open>
  Claim C7, evaluated: the title of an item is edited to two spaces. The edit is
  not redirected to a delete: the only call made is an update, with the empty
  title, and the item is left in the list with an empty title.
\<close>

theorem handleTitleChange_blank_title_updates:
  "sent (snd (fst (handleTitleChange (failingFor 0) patchOk todoA
      (\<lparr>isLoading = False, isEditing = True, inputValue' = [0x20, 0x20]\<rparr>,
       initialState\<lparr>todosFromServer := [todoA]\<rparr>))))
     = [PatchTodo 1 \<lparr>newCompleted = None, newTitle = Some []\<rparr>]
   \<and> todosFromServer (snd (fst (handleTitleChange (failingFor 0) patchOk todoA
      (\<lparr>isLoading = False, isEditing = True, inputValue' = [0x20, 0x20]\<rparr>,
       initialState\<lparr>todosFromServer := [todoA]\<rparr>))))
     = [todoA\<lparr>title := []\<rparr>]"
  by (simp add: handleTitleChange_def handleChangeTodo_def Let_def makeUpdate_def emptyUpdate_def
        spread_def trim_def isWhiteSpace_def patchOk_def todoA_def initialState_def)

end
